theory Spec2Isabelle
  imports Main "HOL-Library.Sublist"
begin

section \<open>Data model of the company research tool\<close>

text \<open>
  The tool is the function \<open>companyResearch(config)\<close>, whose \<open>execute\<close> callback does all
  the work. Text is modelled as \<^typ>\<open>string\<close> (a list of 8-bit characters, read as the
  UTF-8 bytes of the JavaScript string). JSON values are modelled at the types the answer
  endpoint documents: a response is an object with \<open>success\<close>, \<open>contents\<close> and an optional
  array \<open>search_results\<close> of objects with an optional \<open>title\<close>, a \<open>url\<close> and an optional
  \<open>date\<close>. A missing \<open>contents\<close> is the empty string (both are falsy in the source).
\<close>

datatype SectionId =
  summary | leadership | products | news | funding | competitors | filings | financials | insiders

record Source =
  title :: "string option"
  url :: string
  date :: "string option"

record ApiResponse =
  success :: bool
  contents :: string
  search_results :: "Source list option"

record AnswerOptions =
  search_type :: "string option"
  included_sources :: "string list option"
  start_date :: "string option"

record Payload =
  query :: string
  data_max_price :: int
  options :: AnswerOptions

record HttpRequest =
  endpoint :: string
  x_api_key :: string
  body :: Payload

text \<open>
  What \<open>fetch\<close> can do with one request: fail at the transport level, or deliver a
  response with a status code, a text body and the result of parsing that body as JSON
  (\<open>Inl\<close> is the parse error).
\<close>

datatype FetchResult =
  FetchFailed string
| HttpResponse nat string "string + ApiResponse"

datatype error = Error string

datatype 'a settled = Fulfilled 'a | Rejected error

datatype 'a completion = Pending | Thrown error | Returned 'a

record Config =
  apiKey :: "string option"
  dataMaxPrice :: "int option"

record Input =
  company :: string
  sections :: "SectionId list option"

record ToolResult =
  out_company :: string
  report :: string
  out_sections :: "SectionId list"
  sources :: "Source list"

text \<open>
  The world outside the function: the clock read by \<open>Date.now()\<close>, the behaviour of
  \<open>fetch\<close>, and the order in which the dispatched calls settle (the indices of the
  promises, in arrival order; a call whose index never occurs never settles).
\<close>

record World =
  Date_now :: int
  fetch :: "HttpRequest \<Rightarrow> FetchResult"
  arrival :: "nat list"

section \<open>Strings and numbers of the host language\<close>

fun show_nat :: "nat \<Rightarrow> string" where
  "show_nat n =
     (if n < 10 then [''0123456789'' ! n]
      else show_nat (n div 10) @ [''0123456789'' ! (n mod 10)])"

declare show_nat.simps [simp del]

text \<open>
  \<open>toLowerCase\<close> on the bytes of the text: the letters A to Z are mapped to a to z and
  every other byte is kept. The phrases searched for below are ASCII, and a character
  outside ASCII is a sequence of bytes above 127 before and after lower-casing, so the
  searches see what the source's searches see.
\<close>

definition lower_char :: "char \<Rightarrow> char" where
  "lower_char c =
     (let n = (of_char c :: nat) in if 65 \<le> n \<and> n \<le> 90 then char_of (n + 32) else c)"

definition toLowerCase :: "string \<Rightarrow> string" where
  "toLowerCase s = map lower_char s"

text \<open>\<open>s.includes(p)\<close>: the string \<open>p\<close> occurs in \<open>s\<close> as a contiguous segment.\<close>

fun str_includes :: "string \<Rightarrow> string \<Rightarrow> bool" where
  "str_includes [] p = (p = [])"
| "str_includes (c # cs) p = (prefix p (c # cs) \<or> str_includes cs p)"

subsection \<open>Dates: \<open>new Date(t).toISOString().split("T")[0]\<close>\<close>

text \<open>
  A time value is the number of milliseconds since the epoch. \<open>toISOString\<close> renders
  its UTC calendar date and time of day; years outside 0 to 9999 get a sign and six
  digits. \<open>civil_from_days\<close> turns a day number into year, month and day of the
  proleptic Gregorian calendar. The part before the first \<open>T\<close> is what \<open>split("T")[0]\<close>
  selects.
\<close>

definition msPerDay :: int where
  "msPerDay = 24 * 60 * 60 * 1000"

definition Day :: "int \<Rightarrow> int" where
  "Day t = t div msPerDay"

definition civil_from_days :: "int \<Rightarrow> int \<times> int \<times> int" where
  "civil_from_days z =
     (let z' = z + 719468;
          era = z' div 146097;
          doe = z' - era * 146097;
          yoe = (doe - doe div 1460 + doe div 36524 - doe div 146096) div 365;
          doy = doe - (365 * yoe + yoe div 4 - yoe div 100);
          mp = (5 * doy + 2) div 153;
          d = doy - (153 * mp + 2) div 5 + 1;
          m = (if mp < 10 then mp + 3 else mp - 9);
          y = yoe + era * 400 + (if m \<le> 2 then 1 else 0)
      in (y, m, d))"

definition pad :: "nat \<Rightarrow> int \<Rightarrow> string" where
  "pad w n = (let s = show_nat (nat n) in replicate (w - length s) CHR ''0'' @ s)"

definition iso_year :: "int \<Rightarrow> string" where
  "iso_year y =
     (if 0 \<le> y \<and> y \<le> 9999 then pad 4 y
      else (if y < 0 then ''-'' else ''+'') @ pad 6 (abs y))"

definition iso_date :: "int \<Rightarrow> string" where
  "iso_date t =
     (case civil_from_days (Day t) of (y, m, d) \<Rightarrow> iso_year y @ ''-'' @ pad 2 m @ ''-'' @ pad 2 d)"

definition iso_time :: "int \<Rightarrow> string" where
  "iso_time t =
     (let ms = t mod msPerDay
      in pad 2 (ms div 3600000) @ '':'' @ pad 2 (ms div 60000 mod 60) @ '':'' @
         pad 2 (ms div 1000 mod 60) @ ''.'' @ pad 3 (ms mod 1000))"

definition toISOString :: "int \<Rightarrow> string" where
  "toISOString t = iso_date t @ ''T'' @ iso_time t @ ''Z''"

definition split_T_first :: "string \<Rightarrow> string" where
  "split_T_first s = takeWhile (\<lambda>c. c \<noteq> CHR ''T'') s"

section \<open>The content quality check\<close>

definition hasInsufficientInfo :: "string \<Rightarrow> bool" where
  "hasInsufficientInfo content =
     (if content = [] then True
      else (let lowerContent = toLowerCase content
            in str_includes lowerContent ''don't have enough information'' \<or>
               str_includes lowerContent ''do not have enough information'' \<or>
               str_includes lowerContent ''i don't have enough information'' \<or>
               str_includes lowerContent ''based on the sources found'' \<or>
               str_includes lowerContent ''insufficient information'' \<or>
               str_includes lowerContent ''no information available'' \<or>
               str_includes lowerContent ''unable to find'' \<or>
               str_includes lowerContent ''cannot provide'' \<or>
               str_includes lowerContent ''not available''))"

text \<open>
  The specification's reading of the same check: a fixed set of hedge phrases, and
  containment of a phrase up to letter case (some segment of the text has the letters of
  the phrase when case is ignored).
\<close>

definition hedge_phrases :: "string list" where
  "hedge_phrases =
     [''don't have enough information'',
      ''do not have enough information'',
      ''i don't have enough information'',
      ''based on the sources found'',
      ''insufficient information'',
      ''no information available'',
      ''unable to find'',
      ''cannot provide'',
      ''not available'']"

definition same_ignoring_case :: "string \<Rightarrow> string \<Rightarrow> bool" where
  "same_ignoring_case a b = (map lower_char a = map lower_char b)"

definition contains_ignoring_case :: "string \<Rightarrow> string \<Rightarrow> bool" where
  "contains_ignoring_case text phrase =
     (\<exists>us w vs. text = us @ w @ vs \<and> same_ignoring_case w phrase)"

section \<open>Building the answer requests\<close>

definition VALYU_API_BASE :: string where
  "VALYU_API_BASE = ''https://api.valyu.ai/v1''"

definition defaultSections :: "SectionId list" where
  "defaultSections =
     [summary, leadership, products, news, funding, competitors, filings, financials, insiders]"

definition selectedSections :: "Input \<Rightarrow> SectionId list" where
  "selectedSections inp = (case sections inp of None \<Rightarrow> defaultSections | Some ss \<Rightarrow> ss)"

definition search_all :: AnswerOptions where
  "search_all = \<lparr>search_type = Some ''all'', included_sources = None, start_date = None\<rparr>"

text \<open>
  The query text and the options that the source passes to \<open>callAnswerAPI\<close> for each
  section; \<open>now\<close> is the value of \<open>Date.now()\<close> when the request is built.
\<close>

fun sectionQuery :: "string \<Rightarrow> SectionId \<Rightarrow> string" where
  "sectionQuery c summary =
     ''Provide a comprehensive business overview of '' @ c @
     ''. Include: company description, industry, headquarters location, founding year, key products/services, and market position. Be factual and cite sources.''"
| "sectionQuery c leadership =
     ''Who are the key leaders and executives at '' @ c @
     ''? Include CEO, founders, C-suite executives, and board members with their names, titles, and brief backgrounds.''"
| "sectionQuery c products =
     ''What are the main products and services offered by '' @ c @
     ''? Describe their key offerings, target markets, and product strategy.''"
| "sectionQuery c news =
     ''What are the most significant recent news and developments about '' @ c @
     '' in the last 30 days? Summarize key events, announcements, and market reactions with specific dates and sources.''"
| "sectionQuery c funding =
     ''What is the funding history and financial backing of '' @ c @
     ''? Include funding rounds, investors, total capital raised, and valuation if available.''"
| "sectionQuery c competitors =
     ''Who are the main competitors of '' @ c @
     ''? List direct competitors and describe the competitive landscape in their industry.''"
| "sectionQuery c filings =
     ''Summarize the key points from '' @ c @ [CHR 0x27] @
     ''s most recent SEC filings (10-K, 10-Q). Focus on business highlights, financial performance, and risk factors.''"
| "sectionQuery c financials =
     ''Provide current financial metrics for '' @ c @
     '': stock price, market cap, revenue, earnings, P/E ratio, and recent financial performance.''"
| "sectionQuery c insiders =
     ''Summarize recent insider trading activity for '' @ c @
     ''. Include notable buys/sells by executives and board members in the last 90 days.''"

fun sectionOptions :: "int \<Rightarrow> SectionId \<Rightarrow> AnswerOptions" where
  "sectionOptions now news =
     \<lparr>search_type = Some ''all'', included_sources = None,
      start_date = Some (split_T_first (toISOString (now - 30 * 24 * 60 * 60 * 1000)))\<rparr>"
| "sectionOptions now filings =
     \<lparr>search_type = Some ''proprietary'',
      included_sources = Some [''valyu/valyu-sec-filings''], start_date = None\<rparr>"
| "sectionOptions now insiders =
     \<lparr>search_type = Some ''proprietary'',
      included_sources = Some [''valyu/valyu-insider-transactions-US''], start_date = None\<rparr>"
| "sectionOptions now s = search_all"

text \<open>
  \<open>callAnswerAPI\<close>: one POST to the answer endpoint. The result is how the returned
  promise settles: rejected on a transport failure, on a status outside 200..299 and on a
  body that is not JSON, fulfilled with the parsed body otherwise.
\<close>

definition response_ok :: "nat \<Rightarrow> bool" where
  "response_ok status = (200 \<le> status \<and> status \<le> 299)"

definition answerRequest :: "string \<Rightarrow> int \<Rightarrow> string \<Rightarrow> AnswerOptions \<Rightarrow> HttpRequest" where
  "answerRequest key price q opts =
     \<lparr>endpoint = VALYU_API_BASE @ ''/answer'', x_api_key = key,
      body = \<lparr>query = q, data_max_price = price, options = opts\<rparr>\<rparr>"

definition callAnswerAPI ::
  "(HttpRequest \<Rightarrow> FetchResult) \<Rightarrow> string \<Rightarrow> int \<Rightarrow> string \<Rightarrow> AnswerOptions \<Rightarrow> ApiResponse settled"
where
  "callAnswerAPI net key price q opts =
     (case net (answerRequest key price q opts) of
        FetchFailed e \<Rightarrow> Rejected (Error e)
      | HttpResponse status errorText parsed \<Rightarrow>
          if \<not> response_ok status
          then Rejected (Error (''Valyu API error: '' @ show_nat status @ '' - '' @ errorText))
          else (case parsed of Inl e \<Rightarrow> Rejected (Error e) | Inr v \<Rightarrow> Fulfilled v))"

text \<open>
  The chain of \<open>if (selectedSections.includes(...)) apiRequests.push(...)\<close> statements, in the
  order of the source: \<open>apiRequests\<close> lists the sections for which a call is made.
\<close>

definition apiRequests :: "SectionId list \<Rightarrow> SectionId list" where
  "apiRequests sel =
     (if summary \<in> set sel then [summary] else []) @
     (if leadership \<in> set sel then [leadership] else []) @
     (if products \<in> set sel then [products] else []) @
     (if news \<in> set sel then [news] else []) @
     (if funding \<in> set sel then [funding] else []) @
     (if competitors \<in> set sel then [competitors] else []) @
     (if filings \<in> set sel then [filings] else []) @
     (if financials \<in> set sel then [financials] else []) @
     (if insiders \<in> set sel then [insiders] else [])"

definition sectionRequest :: "string \<Rightarrow> int \<Rightarrow> string \<Rightarrow> int \<Rightarrow> SectionId \<Rightarrow> HttpRequest" where
  "sectionRequest key price c now s =
     answerRequest key price (sectionQuery c s) (sectionOptions now s)"

definition sectionCall ::
  "(HttpRequest \<Rightarrow> FetchResult) \<Rightarrow> string \<Rightarrow> int \<Rightarrow> string \<Rightarrow> int \<Rightarrow> SectionId \<Rightarrow> ApiResponse settled"
where
  "sectionCall net key price c now s =
     callAnswerAPI net key price (sectionQuery c s) (sectionOptions now s)"

fun then_section :: "SectionId \<Rightarrow> ApiResponse settled \<Rightarrow> (SectionId \<times> ApiResponse) settled" where
  "then_section s (Fulfilled r) = Fulfilled (s, r)"
| "then_section s (Rejected e) = Rejected e"

section \<open>Waiting for the calls: \<open>Promise.allSettled\<close>\<close>

text \<open>
  \<open>Promise.allSettled\<close> keeps one slot per promise. When the promise with index \<open>i\<close>
  settles, its result is stored in slot \<open>i\<close>; the combined promise resolves with the slots,
  in index order, once every slot is filled, and stays pending until then.
\<close>

definition settle_slot ::
  "'a settled list \<Rightarrow> 'a settled option list \<Rightarrow> nat \<Rightarrow> 'a settled option list" where
  "settle_slot ps slots i = (if i < length ps then slots[i := Some (ps ! i)] else slots)"

definition allSettled :: "'a settled list \<Rightarrow> nat list \<Rightarrow> 'a settled list option" where
  "allSettled ps order =
     (let slots = foldl (settle_slot ps) (replicate (length ps) None) order
      in if list_all (\<lambda>x. x \<noteq> None) slots then Some (map the slots) else None)"

section \<open>Building the report\<close>

fun sectionTitles :: "SectionId \<Rightarrow> string" where
  "sectionTitles summary = ''Business Overview''"
| "sectionTitles leadership = ''Leadership & Key People''"
| "sectionTitles products = ''Products & Services''"
| "sectionTitles news = ''Recent News & Developments''"
| "sectionTitles funding = ''Funding & Investment''"
| "sectionTitles competitors = ''Competitive Landscape''"
| "sectionTitles filings = ''SEC Filings Summary''"
| "sectionTitles financials = ''Financial Metrics & Stock Performance''"
| "sectionTitles insiders = ''Insider Trading Activity''"

definition report_header :: "string \<Rightarrow> string" where
  "report_header c = ''# Company Research Report: '' @ c @ ''\<newline>\<newline>''"

definition section_block :: "SectionId \<Rightarrow> string \<Rightarrow> string" where
  "section_block s text =
     ''## '' @ sectionTitles s @ ''\<newline>\<newline>'' @ text @ ''\<newline>\<newline>''"

definition usable :: "ApiResponse \<Rightarrow> bool" where
  "usable apiResult =
     (success apiResult \<and> contents apiResult \<noteq> [] \<and> \<not> hasInsufficientInfo (contents apiResult))"

definition result_sources :: "ApiResponse \<Rightarrow> Source list" where
  "result_sources apiResult = (case search_results apiResult of None \<Rightarrow> [] | Some rs \<Rightarrow> rs)"

text \<open>One iteration of \<open>for (const result of results)\<close> on the pair
  \<open>(reportMarkdown, allSources)\<close>.\<close>

fun report_step ::
  "string \<times> Source list \<Rightarrow> (SectionId \<times> ApiResponse) settled \<Rightarrow> string \<times> Source list"
where
  "report_step (md, srcs) (Rejected e) = (md, srcs)"
| "report_step (md, srcs) (Fulfilled (s, apiResult)) =
     (if usable apiResult
      then (md @ section_block s (contents apiResult), srcs @ result_sources apiResult)
      else (md, srcs))"

text \<open>
  A JavaScript \<open>Map\<close> as the list of its entries in insertion order: \<open>set\<close> on a key that
  is present replaces the value and keeps the entry where it is; a new key goes last.
\<close>

fun Map_set :: "('k \<times> 'v) list \<Rightarrow> 'k \<Rightarrow> 'v \<Rightarrow> ('k \<times> 'v) list" where
  "Map_set [] k v = [(k, v)]"
| "Map_set ((k', v') # m) k v = (if k' = k then (k', v) # m else (k', v') # Map_set m k v)"

definition new_Map :: "('k \<times> 'v) list \<Rightarrow> ('k \<times> 'v) list" where
  "new_Map entries = foldl (\<lambda>m (k, v). Map_set m k v) [] entries"

definition uniqueSources :: "Source list \<Rightarrow> Source list" where
  "uniqueSources allSources = map snd (new_Map (map (\<lambda>s. (url s, s)) allSources))"

definition source_line :: "nat \<Rightarrow> Source \<Rightarrow> string" where
  "source_line index source =
     show_nat (index + 1) @ ''. ['' @
     (case title source of None \<Rightarrow> ''Source'' | Some t \<Rightarrow> if t = [] then ''Source'' else t) @
     '']('' @ url source @ '')'' @
     (case date source of None \<Rightarrow> [] | Some d \<Rightarrow> if d = [] then [] else '' - '' @ d) @
     ''\<newline>''"

definition sources_block :: "Source list \<Rightarrow> string" where
  "sources_block allSources =
     (if allSources \<noteq> []
      then ''## Sources & Citations\<newline>\<newline>'' @
           concat (map (\<lambda>(index, source). source_line index source)
                       (enumerate 0 (uniqueSources allSources)))
      else [])"

definition buildReport ::
  "string \<Rightarrow> SectionId list \<Rightarrow> (SectionId \<times> ApiResponse) settled list \<Rightarrow> ToolResult"
where
  "buildReport c sel results =
     (case foldl report_step (report_header c, []) results of
        (reportMarkdown, allSources) \<Rightarrow>
          \<lparr>out_company = c, report = reportMarkdown @ sources_block allSources,
           out_sections = sel, sources = allSources\<rparr>)"

section \<open>The tool: \<open>companyResearch(config)\<close> and its \<open>execute\<close>\<close>

text \<open>
  \<open>env\<close> is \<open>process.env.VALYU_API_KEY\<close>. The key of the configuration is used when it
  is defined, the environment's otherwise; an undefined or empty key is falsy.
  The result is the list of requests sent over the network and how the call completes:
  it throws, it returns a result, or it stays pending because a dispatched call never
  settles. With responses of the documented type nothing inside the \<open>try\<close> block throws,
  so its \<open>catch\<close> clause has no branch here.
\<close>

definition resolved_apiKey :: "Config \<Rightarrow> string option \<Rightarrow> string option" where
  "resolved_apiKey cfg env = (case apiKey cfg of None \<Rightarrow> env | Some k \<Rightarrow> Some k)"

definition resolved_dataMaxPrice :: "Config \<Rightarrow> int" where
  "resolved_dataMaxPrice cfg = (case dataMaxPrice cfg of None \<Rightarrow> 100 | Some p \<Rightarrow> p)"

definition missing_key_error :: error where
  "missing_key_error =
     Error ''VALYU_API_KEY is required. Set it in environment variables or pass it in config.''"

definition dispatch ::
  "string \<Rightarrow> int \<Rightarrow> Input \<Rightarrow> World \<Rightarrow> HttpRequest list \<times> ToolResult completion"
where
  "dispatch key price inp w =
     (let sel = selectedSections inp;
          reqs = apiRequests sel;
          sent = map (sectionRequest key price (company inp) (Date_now w)) reqs;
          promises = map (\<lambda>s. then_section s
                       (sectionCall (fetch w) key price (company inp) (Date_now w) s)) reqs
      in case allSettled promises (arrival w) of
           None \<Rightarrow> (sent, Pending)
         | Some results \<Rightarrow> (sent, Returned (buildReport (company inp) sel results)))"

definition execute ::
  "Config \<Rightarrow> string option \<Rightarrow> Input \<Rightarrow> World \<Rightarrow> HttpRequest list \<times> ToolResult completion"
where
  "execute cfg env inp w =
     (case resolved_apiKey cfg env of
        None \<Rightarrow> ([], Thrown missing_key_error)
      | Some key \<Rightarrow>
          if key = [] then ([], Thrown missing_key_error)
          else dispatch key (resolved_dataMaxPrice cfg) inp w)"

section \<open>Vocabulary of the specification\<close>

text \<open>
  The three-way outcome of one section's call, read off a settled call: a rejected call is
  \<open>Failed\<close>; a fulfilled call is \<open>Usable\<close> when the response is marked successful, its text
  is non-empty and the quality check does not flag it, and \<open>Unusable\<close> otherwise.
\<close>

datatype SectionOutcome = Usable string "Source list" | Unusable | Failed error

fun outcome_of :: "ApiResponse settled \<Rightarrow> SectionOutcome" where
  "outcome_of (Rejected e) = Failed e"
| "outcome_of (Fulfilled r) =
     (if success r \<and> contents r \<noteq> [] \<and> \<not> hasInsufficientInfo (contents r)
      then Usable (contents r) (result_sources r) else Unusable)"

fun is_Usable :: "SectionOutcome \<Rightarrow> bool" where
  "is_Usable (Usable text cites) = True"
| "is_Usable other = False"

fun outcome_block :: "SectionId \<Rightarrow> SectionOutcome \<Rightarrow> string" where
  "outcome_block s (Usable text cites) = section_block s text"
| "outcome_block s other = []"

fun outcome_sources :: "SectionOutcome \<Rightarrow> Source list" where
  "outcome_sources (Usable text cites) = cites"
| "outcome_sources other = []"

text \<open>The fixed order of the sections: the order of the request chain in the source.\<close>

definition catalog_order :: "SectionId list" where
  "catalog_order =
     [summary, leadership, products, news, funding, competitors, filings, financials, insiders]"

definition the_key :: "Config \<Rightarrow> string option \<Rightarrow> string" where
  "the_key cfg env = (case resolved_apiKey cfg env of None \<Rightarrow> [] | Some k \<Rightarrow> k)"

definition requested :: "Input \<Rightarrow> SectionId list" where
  "requested inp = filter (\<lambda>s. s \<in> set (selectedSections inp)) catalog_order"

definition sectionOutcome :: "Config \<Rightarrow> string option \<Rightarrow> Input \<Rightarrow> World \<Rightarrow> SectionId \<Rightarrow> SectionOutcome" where
  "sectionOutcome cfg env inp w s =
     outcome_of (sectionCall (fetch w) (the_key cfg env) (resolved_dataMaxPrice cfg)
                   (company inp) (Date_now w) s)"

definition every_call_settles :: "Input \<Rightarrow> World \<Rightarrow> bool" where
  "every_call_settles inp w = (set [0..<length (requested inp)] \<subseteq> set (arrival w))"

definition rendered_sections :: "Config \<Rightarrow> string option \<Rightarrow> Input \<Rightarrow> World \<Rightarrow> SectionId list" where
  "rendered_sections cfg env inp w =
     filter (\<lambda>s. is_Usable (sectionOutcome cfg env inp w s)) (requested inp)"

text \<open>
  The citation deduplicator as the specification words it: walk the list with a set of
  seen identity keys; drop a citation whose key has been seen, keep any other and record
  its key.
\<close>

fun merge_seen :: "string set \<Rightarrow> Source list \<Rightarrow> Source list" where
  "merge_seen seen [] = []"
| "merge_seen seen (c # cs) =
     (if url c \<in> seen then merge_seen seen cs else c # merge_seen (insert (url c) seen) cs)"

text \<open>The last citation of a list that has a given key, or a default when there is none.\<close>

definition last_with :: "Source list \<Rightarrow> string \<Rightarrow> Source \<Rightarrow> Source" where
  "last_with srcs k v =
     (if filter (\<lambda>d. url d = k) srcs = [] then v else last (filter (\<lambda>d. url d = k) srcs))"

section \<open>A concrete run used to exercise the theorems\<close>

definition example_config :: Config where
  "example_config = \<lparr>apiKey = Some ''secret'', dataMaxPrice = None\<rparr>"

definition example_fetch :: "HttpRequest \<Rightarrow> FetchResult" where
  "example_fetch r =
     (if query (body r) = sectionQuery ''Acme'' summary then
        HttpResponse 200 [] (Inr \<lparr>success = True, contents = ''Acme makes rockets.'',
          search_results = Some
            [\<lparr>title = Some ''About Acme'', url = ''https://shared'', date = None\<rparr>,
             \<lparr>title = None, url = ''https://a'', date = Some ''2024-05-01''\<rparr>]\<rparr>)
      else if query (body r) = sectionQuery ''Acme'' leadership then
        HttpResponse 200 [] (Inr \<lparr>success = True,
          contents = ''Based on the Sources Found, Acme is led by Jane Doe.'',
          search_results = Some [\<lparr>title = Some ''Board'', url = ''https://b'', date = None\<rparr>]\<rparr>)
      else if query (body r) = sectionQuery ''Acme'' products then
        HttpResponse 200 [] (Inr \<lparr>success = True, contents = ''Rockets and anvils.'',
          search_results = Some
            [\<lparr>title = Some ''Catalog'', url = ''https://c'', date = None\<rparr>,
             \<lparr>title = Some ''Acme again'', url = ''https://shared'', date = Some ''2025-01-01''\<rparr>]\<rparr>)
      else if query (body r) = sectionQuery ''Acme'' news then
        HttpResponse 200 [] (Inr \<lparr>success = True,
          contents = ''I don't have enough information about recent news.'',
          search_results = None\<rparr>)
      else HttpResponse 500 ''upstream failure'' (Inl ''not JSON''))"

definition example_world :: World where
  "example_world = \<lparr>Date_now = 1793664000123, fetch = example_fetch, arrival = [2, 0, 3, 1]\<rparr>"

definition example_input :: Input where
  "example_input = \<lparr>company = ''Acme'', sections = Some [news, summary, filings, products]\<rparr>"

text \<open>The same run with a transport failure injected into the call of the products section.\<close>

definition example_failing_world :: World where
  "example_failing_world =
     example_world\<lparr>fetch := (fetch example_world)
       (sectionRequest ''secret'' 100 ''Acme'' 1793664000123 products := FetchFailed ''socket hang up'')\<rparr>"

section \<open>Facts about strings and the quality check\<close>

lemma str_includes_iff: "str_includes s p \<longleftrightarrow> (\<exists>us vs. s = us @ p @ vs)"
proof (induction s)
  case Nil
  then show ?case by auto
next
  case (Cons c cs)
  show ?case
  proof
    assume "str_includes (c # cs) p"
    then consider "prefix p (c # cs)" | "str_includes cs p" by auto
    then show "\<exists>us vs. c # cs = us @ p @ vs"
    proof cases
      case 1
      then obtain vs where "c # cs = p @ vs" by (auto simp: prefix_def)
      then have "c # cs = [] @ p @ vs" by simp
      then show ?thesis by blast
    next
      case 2
      with Cons.IH obtain us vs where "cs = us @ p @ vs" by blast
      then have "c # cs = (c # us) @ p @ vs" by simp
      then show ?thesis by blast
    qed
  next
    assume "\<exists>us vs. c # cs = us @ p @ vs"
    then obtain us vs where e: "c # cs = us @ p @ vs" by blast
    show "str_includes (c # cs) p"
    proof (cases us)
      case Nil
      with e have "prefix p (c # cs)" by (simp add: prefix_def)
      then show ?thesis by simp
    next
      case (Cons u us')
      with e have "cs = us' @ p @ vs" by simp
      with Cons.IH have "str_includes cs p" by blast
      then show ?thesis by simp
    qed
  qed
qed

lemma includes_lower_iff:
  "str_includes (toLowerCase text) (map lower_char p) \<longleftrightarrow> contains_ignoring_case text p"
proof
  assume "str_includes (toLowerCase text) (map lower_char p)"
  then obtain us vs where "map lower_char text = us @ map lower_char p @ vs"
    by (auto simp: str_includes_iff toLowerCase_def)
  then have "\<exists>a r. text = a @ r \<and> us = map lower_char a \<and> map lower_char p @ vs = map lower_char r"
    by (rule map_eq_append_conv [THEN iffD1])
  then obtain a r where t1: "text = a @ r" and t2: "map lower_char r = map lower_char p @ vs"
    by auto
  from t2 have "\<exists>b c. r = b @ c \<and> map lower_char p = map lower_char b \<and> vs = map lower_char c"
    by (rule map_eq_append_conv [THEN iffD1])
  then obtain b c where "r = b @ c" and "map lower_char b = map lower_char p"
    by auto
  with t1 show "contains_ignoring_case text p"
    unfolding contains_ignoring_case_def same_ignoring_case_def by blast
next
  assume "contains_ignoring_case text p"
  then obtain us w vs where "text = us @ w @ vs" and "map lower_char w = map lower_char p"
    unfolding contains_ignoring_case_def same_ignoring_case_def by blast
  then have "toLowerCase text = map lower_char us @ map lower_char p @ map lower_char vs"
    by (simp add: toLowerCase_def)
  then show "str_includes (toLowerCase text) (map lower_char p)"
    unfolding str_includes_iff by blast
qed

lemma hedge_lower:
  "map lower_char ''don't have enough information'' = ''don't have enough information''"
  "map lower_char ''do not have enough information'' = ''do not have enough information''"
  "map lower_char ''i don't have enough information'' = ''i don't have enough information''"
  "map lower_char ''based on the sources found'' = ''based on the sources found''"
  "map lower_char ''insufficient information'' = ''insufficient information''"
  "map lower_char ''no information available'' = ''no information available''"
  "map lower_char ''unable to find'' = ''unable to find''"
  "map lower_char ''cannot provide'' = ''cannot provide''"
  "map lower_char ''not available'' = ''not available''"
  by code_simp+

lemma includes_hedge:
  "str_includes (toLowerCase t) ''don't have enough information'' = contains_ignoring_case t ''don't have enough information''"
  "str_includes (toLowerCase t) ''do not have enough information'' = contains_ignoring_case t ''do not have enough information''"
  "str_includes (toLowerCase t) ''i don't have enough information'' = contains_ignoring_case t ''i don't have enough information''"
  "str_includes (toLowerCase t) ''based on the sources found'' = contains_ignoring_case t ''based on the sources found''"
  "str_includes (toLowerCase t) ''insufficient information'' = contains_ignoring_case t ''insufficient information''"
  "str_includes (toLowerCase t) ''no information available'' = contains_ignoring_case t ''no information available''"
  "str_includes (toLowerCase t) ''unable to find'' = contains_ignoring_case t ''unable to find''"
  "str_includes (toLowerCase t) ''cannot provide'' = contains_ignoring_case t ''cannot provide''"
  "str_includes (toLowerCase t) ''not available'' = contains_ignoring_case t ''not available''"
  using includes_lower_iff [of t] hedge_lower by metis+

section \<open>Facts about dates\<close>







section \<open>Facts about the requests\<close>

lemma sectionQuery_inj: "sectionQuery c s = sectionQuery c t \<Longrightarrow> s = t"
  by (cases s; cases t) simp_all

lemma sectionRequest_inj:
  "sectionRequest key price c now s = sectionRequest key price c now t \<Longrightarrow> s = t"
  by (auto simp: sectionRequest_def answerRequest_def dest: sectionQuery_inj)

section \<open>Facts about settling and the report loop\<close>

lemma foldl_settle_slot:
  "length sl = length ps \<Longrightarrow>
   foldl (settle_slot ps) sl order =
     map (\<lambda>i. if i \<in> set order then Some (ps ! i) else sl ! i) [0..<length ps]"
proof (induction order arbitrary: sl)
  case Nil
  then show ?case by (intro nth_equalityI) simp_all
next
  case (Cons i order)
  have len: "length (settle_slot ps sl i) = length ps"
    using Cons.prems by (simp add: settle_slot_def)
  show ?case
    unfolding foldl_Cons Cons.IH [OF len]
    using Cons.prems by (intro nth_equalityI) (auto simp: settle_slot_def nth_list_update)
qed

lemma allSettled_eq:
  "allSettled ps order = (if set [0..<length ps] \<subseteq> set order then Some ps else None)"
proof -
  let ?slots = "map (\<lambda>i. if i \<in> set order then Some (ps ! i) else None) [0..<length ps]"
  have f: "foldl (settle_slot ps) (replicate (length ps) None) order = ?slots"
    by (subst foldl_settle_slot) auto
  have a: "list_all (\<lambda>x. x \<noteq> None) ?slots \<longleftrightarrow> set [0..<length ps] \<subseteq> set order"
    by (auto simp: list_all_iff)
  have b: "set [0..<length ps] \<subseteq> set order \<Longrightarrow> map the ?slots = ps"
    by (intro nth_equalityI) (auto simp: subset_iff)
  show ?thesis
    unfolding allSettled_def f Let_def a using b by simp
qed

lemma apiRequests_eq: "apiRequests sel = filter (\<lambda>s. s \<in> set sel) catalog_order"
  by (simp add: apiRequests_def catalog_order_def)

lemma report_step_outcome:
  "report_step (md, srcs) (then_section s r) =
     (md @ outcome_block s (outcome_of r), srcs @ outcome_sources (outcome_of r))"
  by (cases r) (simp_all add: usable_def)

lemma foldl_report_step:
  "foldl report_step (md, srcs) (map (\<lambda>s. then_section s (f s)) xs) =
     (md @ concat (map (\<lambda>s. outcome_block s (outcome_of (f s))) xs),
      srcs @ concat (map (\<lambda>s. outcome_sources (outcome_of (f s))) xs))"
  by (induction xs arbitrary: md srcs) (simp_all add: report_step_outcome)

lemma concat_blocks_usable:
  "concat (map (\<lambda>s. outcome_block s (g s)) xs) =
   concat (map (\<lambda>s. outcome_block s (g s)) (filter (\<lambda>s. is_Usable (g s)) xs))"
proof (induction xs)
  case Nil
  then show ?case by simp
next
  case (Cons x xs)
  then show ?case by (cases "g x") simp_all
qed

lemma concat_sources_usable:
  "concat (map (\<lambda>s. outcome_sources (g s)) xs) =
   concat (map (\<lambda>s. outcome_sources (g s)) (filter (\<lambda>s. is_Usable (g s)) xs))"
proof (induction xs)
  case Nil
  then show ?case by simp
next
  case (Cons x xs)
  then show ?case by (cases "g x") simp_all
qed

lemma execute_key:
  "execute cfg env inp w =
     (if the_key cfg env = [] then ([], Thrown missing_key_error)
      else dispatch (the_key cfg env) (resolved_dataMaxPrice cfg) inp w)"
  by (simp add: execute_def the_key_def split: option.splits)

lemma requested_eq: "apiRequests (selectedSections inp) = requested inp"
  by (simp add: apiRequests_eq requested_def)

lemma buildReport_eq:
  "buildReport c sel (map (\<lambda>s. then_section s (f s)) xs) =
     \<lparr>out_company = c,
      report = report_header c @
               concat (map (\<lambda>s. outcome_block s (outcome_of (f s)))
                           (filter (\<lambda>s. is_Usable (outcome_of (f s))) xs)) @
               sources_block (concat (map (\<lambda>s. outcome_sources (outcome_of (f s)))
                           (filter (\<lambda>s. is_Usable (outcome_of (f s))) xs))),
      out_sections = sel,
      sources = concat (map (\<lambda>s. outcome_sources (outcome_of (f s)))
                           (filter (\<lambda>s. is_Usable (outcome_of (f s))) xs))\<rparr>"
  unfolding buildReport_def foldl_report_step
  using concat_blocks_usable [of "\<lambda>s. outcome_of (f s)" xs]
        concat_sources_usable [of "\<lambda>s. outcome_of (f s)" xs]
  by simp

lemma dispatch_eq:
  "dispatch (the_key cfg env) (resolved_dataMaxPrice cfg) inp w =
     (map (sectionRequest (the_key cfg env) (resolved_dataMaxPrice cfg) (company inp) (Date_now w))
          (requested inp),
      if every_call_settles inp w
      then Returned
        \<lparr>out_company = company inp,
         report = report_header (company inp) @
                  concat (map (\<lambda>s. outcome_block s (sectionOutcome cfg env inp w s))
                              (rendered_sections cfg env inp w)) @
                  sources_block (concat (map (\<lambda>s. outcome_sources (sectionOutcome cfg env inp w s))
                              (rendered_sections cfg env inp w))),
         out_sections = selectedSections inp,
         sources = concat (map (\<lambda>s. outcome_sources (sectionOutcome cfg env inp w s))
                              (rendered_sections cfg env inp w))\<rparr>
      else Pending)"
  unfolding dispatch_def Let_def requested_eq allSettled_eq
  by (simp add: buildReport_eq every_call_settles_def rendered_sections_def sectionOutcome_def)

section \<open>Facts about the citation deduplicator\<close>

lemma Map_set_present:
  "distinct (map fst m) \<Longrightarrow> k \<in> fst ` set m \<Longrightarrow>
   Map_set m k v = map (\<lambda>(k', v'). (k', if k' = k then v else v')) m"
proof (induction m)
  case Nil
  then show ?case by simp
next
  case (Cons p m)
  obtain k' v' where p: "p = (k', v')" by (cases p)
  show ?case
  proof (cases "k' = k")
    case True
    with Cons.prems p have "k \<notin> fst ` set m" by auto
    then have "map (\<lambda>(a, b). (a, if a = k then v else b)) m = m"
      by (intro map_idI) (auto simp: image_iff)
    with True p show ?thesis by simp
  next
    case False
    with Cons p show ?thesis by auto
  qed
qed

lemma Map_set_absent: "k \<notin> fst ` set m \<Longrightarrow> Map_set m k v = m @ [(k, v)]"
  by (induction m) auto

lemma Map_set_keys: "fst ` set (Map_set m k v) = insert k (fst ` set m)"
  by (induction m) force+

lemma Map_set_distinct: "distinct (map fst m) \<Longrightarrow> distinct (map fst (Map_set m k v))"
proof (induction m)
  case Nil
  then show ?case by simp
next
  case (Cons p m)
  obtain k' v' where p: "p = (k', v')" by (cases p)
  have "set (map fst (Map_set m k v)) = insert k (fst ` set m)"
    using Map_set_keys [of m k v] by simp
  with Cons p show ?case by auto
qed

lemma merge_seen_mem:
  "x \<in> set (merge_seen seen cs) \<Longrightarrow> url x \<notin> seen \<and> x \<in> set cs"
  by (induction cs arbitrary: seen) (auto split: if_splits)

lemma merge_seen_distinct: "distinct (map url (merge_seen seen cs))"
proof (induction cs arbitrary: seen)
  case Nil
  then show ?case by simp
next
  case (Cons c cs)
  have "url c \<notin> url ` set (merge_seen (insert (url c) seen) cs)"
  proof
    assume "url c \<in> url ` set (merge_seen (insert (url c) seen) cs)"
    then obtain x where "x \<in> set (merge_seen (insert (url c) seen) cs)" and "url x = url c"
      by auto
    with merge_seen_mem [of x "insert (url c) seen" cs] show False by simp
  qed
  with Cons show ?case by simp
qed

lemma last_with_Cons_other: "url c \<noteq> k \<Longrightarrow> last_with (c # cs) k v = last_with cs k v"
  by (simp add: last_with_def)

lemma last_with_Cons_same: "last_with (c # cs) (url c) v = last_with cs (url c) c"
  by (simp add: last_with_def)

lemma new_Map_fold:
  "distinct (map fst m) \<Longrightarrow>
   foldl (\<lambda>m (k, v). Map_set m k v) m (map (\<lambda>s. (url s, s)) srcs) =
     map (\<lambda>(k, v). (k, last_with srcs k v)) m @
     map (\<lambda>c. (url c, last_with srcs (url c) c)) (merge_seen (fst ` set m) srcs)"
proof (induction srcs arbitrary: m)
  case Nil
  then show ?case by (simp add: last_with_def)
next
  case (Cons c cs)
  let ?m' = "Map_set m (url c) c"
  have d': "distinct (map fst ?m')" using Cons.prems by (rule Map_set_distinct)
  have keys': "fst ` set ?m' = insert (url c) (fst ` set m)" by (rule Map_set_keys)
  have tail: "map (\<lambda>x. (url x, last_with (c # cs) (url x) x)) (merge_seen (insert (url c) (fst ` set m)) cs)
            = map (\<lambda>x. (url x, last_with cs (url x) x)) (merge_seen (insert (url c) (fst ` set m)) cs)"
  proof (intro map_cong refl)
    fix x assume "x \<in> set (merge_seen (insert (url c) (fst ` set m)) cs)"
    then have "url c \<noteq> url x" using merge_seen_mem [of x "insert (url c) (fst ` set m)" cs] by auto
    then show "(url x, last_with (c # cs) (url x) x) = (url x, last_with cs (url x) x)"
      by (simp add: last_with_Cons_other)
  qed
  have step: "foldl (\<lambda>m (k, v). Map_set m k v) m (map (\<lambda>s. (url s, s)) (c # cs)) =
     map (\<lambda>(k, v). (k, last_with cs k v)) ?m' @
     map (\<lambda>x. (url x, last_with cs (url x) x)) (merge_seen (insert (url c) (fst ` set m)) cs)"
    using Cons.IH [OF d'] keys' by simp
  show ?case
  proof (cases "url c \<in> fst ` set m")
    case True
    have m': "?m' = map (\<lambda>(k', v'). (k', if k' = url c then c else v')) m"
      using Cons.prems True by (rule Map_set_present)
    have head: "map (\<lambda>(k, v). (k, last_with cs k v)) ?m' = map (\<lambda>(k, v). (k, last_with (c # cs) k v)) m"
      unfolding m' by (auto simp: last_with_Cons_other last_with_Cons_same)
    have ins: "insert (url c) (fst ` set m) = fst ` set m" using True by auto
    show ?thesis
      unfolding step head using True tail by (simp add: ins)
  next
    case False
    have m': "?m' = m @ [(url c, c)]" using False by (rule Map_set_absent)
    have head: "map (\<lambda>(k, v). (k, last_with cs k v)) m = map (\<lambda>(k, v). (k, last_with (c # cs) k v)) m"
      using False by (intro map_cong refl) (auto simp: last_with_Cons_other image_iff)
    show ?thesis
      unfolding step m' using False tail head by (simp add: last_with_Cons_same)
  qed
qed

lemma uniqueSources_last_with:
  "uniqueSources srcs = map (\<lambda>c. last_with srcs (url c) c) (merge_seen {} srcs)"
  unfolding uniqueSources_def new_Map_def
  by (subst new_Map_fold) (simp_all add: comp_def)

lemma url_last_with: "url (last_with srcs (url c) c) = url c"
proof (cases "filter (\<lambda>d. url d = url c) srcs = []")
  case True
  then show ?thesis by (simp add: last_with_def)
next
  case False
  from last_in_set [OF False] have "url (last (filter (\<lambda>d. url d = url c) srcs)) = url c"
    by simp
  with False show ?thesis by (simp add: last_with_def)
qed

lemma uniqueSources_urls: "map url (uniqueSources srcs) = map url (merge_seen {} srcs)"
  unfolding uniqueSources_last_with by (simp add: url_last_with)

lemma uniqueSources_distinct: "distinct (map url (uniqueSources srcs))"
  unfolding uniqueSources_urls by (rule merge_seen_distinct)

section \<open>Facts about a whole run\<close>

lemma execute_eq:
  "the_key cfg env \<noteq> [] \<Longrightarrow>
   execute cfg env inp w =
     (map (sectionRequest (the_key cfg env) (resolved_dataMaxPrice cfg) (company inp) (Date_now w))
          (requested inp),
      if every_call_settles inp w
      then Returned
        \<lparr>out_company = company inp,
         report = report_header (company inp) @
                  concat (map (\<lambda>s. outcome_block s (sectionOutcome cfg env inp w s))
                              (rendered_sections cfg env inp w)) @
                  sources_block (concat (map (\<lambda>s. outcome_sources (sectionOutcome cfg env inp w s))
                              (rendered_sections cfg env inp w))),
         out_sections = selectedSections inp,
         sources = concat (map (\<lambda>s. outcome_sources (sectionOutcome cfg env inp w s))
                              (rendered_sections cfg env inp w))\<rparr>
      else Pending)"
  by (simp add: execute_key dispatch_eq)

lemma is_Usable_outcome_of:
  "is_Usable (outcome_of x) =
     (case x of
        Fulfilled r \<Rightarrow> success r \<and> contents r \<noteq> [] \<and> \<not> hasInsufficientInfo (contents r)
      | Rejected e \<Rightarrow> False)"
  by (cases x) simp_all

lemma outcome_block_text:
  "is_Usable (outcome_of x) \<Longrightarrow>
   outcome_block s (outcome_of x) =
     ''## '' @ sectionTitles s @ ''\<newline>\<newline>'' @
     (case x of Fulfilled r \<Rightarrow> contents r | Rejected e \<Rightarrow> []) @ ''\<newline>\<newline>''"
  by (cases x) (simp_all add: section_block_def split: if_splits)

lemma outcome_sources_list:
  "is_Usable (outcome_of x) \<Longrightarrow>
   outcome_sources (outcome_of x) =
     (case x of
        Fulfilled r \<Rightarrow> (case search_results r of None \<Rightarrow> [] | Some rs \<Rightarrow> rs)
      | Rejected e \<Rightarrow> [])"
  by (cases x) (simp_all add: result_sources_def split: if_splits)

lemma rendered_sections_explicit:
  "rendered_sections cfg env inp w =
     filter (\<lambda>s. s \<in> set (selectedSections inp) \<and>
          (case sectionCall (fetch w) (the_key cfg env) (resolved_dataMaxPrice cfg)
                  (company inp) (Date_now w) s of
             Fulfilled r \<Rightarrow> success r \<and> contents r \<noteq> [] \<and> \<not> hasInsufficientInfo (contents r)
           | Rejected e \<Rightarrow> False))
       [summary, leadership, products, news, funding, competitors, filings, financials, insiders]"
  unfolding rendered_sections_def requested_def filter_filter sectionOutcome_def
    is_Usable_outcome_of catalog_order_def
  by (rule refl)

lemma rendered_blocks_explicit:
  "map (\<lambda>s. outcome_block s (sectionOutcome cfg env inp w s)) (rendered_sections cfg env inp w) =
   map (\<lambda>s. ''## '' @ sectionTitles s @ ''\<newline>\<newline>'' @
         (case sectionCall (fetch w) (the_key cfg env) (resolved_dataMaxPrice cfg)
                 (company inp) (Date_now w) s of
            Fulfilled r \<Rightarrow> contents r | Rejected e \<Rightarrow> []) @ ''\<newline>\<newline>'')
       (rendered_sections cfg env inp w)"
proof (rule map_cong [OF refl])
  fix s assume "s \<in> set (rendered_sections cfg env inp w)"
  then have "is_Usable (outcome_of (sectionCall (fetch w) (the_key cfg env)
       (resolved_dataMaxPrice cfg) (company inp) (Date_now w) s))"
    by (simp add: rendered_sections_def sectionOutcome_def)
  then show "outcome_block s (sectionOutcome cfg env inp w s) =
     ''## '' @ sectionTitles s @ ''\<newline>\<newline>'' @
         (case sectionCall (fetch w) (the_key cfg env) (resolved_dataMaxPrice cfg)
                 (company inp) (Date_now w) s of
            Fulfilled r \<Rightarrow> contents r | Rejected e \<Rightarrow> []) @ ''\<newline>\<newline>''"
    unfolding sectionOutcome_def by (rule outcome_block_text)
qed

lemma rendered_sources_explicit:
  "map (\<lambda>s. outcome_sources (sectionOutcome cfg env inp w s)) (rendered_sections cfg env inp w) =
   map (\<lambda>s. case sectionCall (fetch w) (the_key cfg env) (resolved_dataMaxPrice cfg)
                 (company inp) (Date_now w) s of
            Fulfilled r \<Rightarrow> (case search_results r of None \<Rightarrow> [] | Some rs \<Rightarrow> rs)
          | Rejected e \<Rightarrow> [])
       (rendered_sections cfg env inp w)"
proof (rule map_cong [OF refl])
  fix s assume "s \<in> set (rendered_sections cfg env inp w)"
  then have "is_Usable (outcome_of (sectionCall (fetch w) (the_key cfg env)
       (resolved_dataMaxPrice cfg) (company inp) (Date_now w) s))"
    by (simp add: rendered_sections_def sectionOutcome_def)
  then show "outcome_sources (sectionOutcome cfg env inp w s) =
     (case sectionCall (fetch w) (the_key cfg env) (resolved_dataMaxPrice cfg)
                 (company inp) (Date_now w) s of
            Fulfilled r \<Rightarrow> (case search_results r of None \<Rightarrow> [] | Some rs \<Rightarrow> rs)
          | Rejected e \<Rightarrow> [])"
    unfolding sectionOutcome_def by (rule outcome_sources_list)
qed

lemma sources_block_explicit:
  "sources_block srcs =
     (if srcs = [] then []
      else ''## Sources & Citations\<newline>\<newline>'' @
           concat (map (\<lambda>(index, c).
                     show_nat (index + 1) @ ''. ['' @
                     (case title c of None \<Rightarrow> ''Source''
                      | Some t \<Rightarrow> if t = [] then ''Source'' else t) @
                     '']('' @ url c @ '')'' @
                     (case date c of None \<Rightarrow> []
                      | Some d \<Rightarrow> if d = [] then [] else '' - '' @ d) @
                     ''\<newline>'')
                   (enumerate 0 (uniqueSources srcs))))"
  by (simp add: sources_block_def source_line_def [abs_def])

section \<open>Properties of the report generator\<close>

text \<open>
  C5. For every answer text, the content quality check flags the text (classifies it
  Unusable) exactly when the text is empty or contains, up to letter case, one of the
  phrases of the fixed hedge-phrase set; every other text is not flagged (Usable).
\<close>

theorem quality_filter_classification:
  "hasInsufficientInfo text \<longleftrightarrow>
     text = [] \<or> (\<exists>p \<in> set hedge_phrases. contains_ignoring_case text p)"
  unfolding hasInsufficientInfo_def Let_def includes_hedge hedge_phrases_def
  by simp

theorem quality_filter_classification_witness:
  "hasInsufficientInfo ''Sorry, I am UNABLE to Find anything.'' \<and>
   (\<exists>p \<in> set hedge_phrases. contains_ignoring_case ''Sorry, I am UNABLE to Find anything.'' p) \<and>
   \<not> hasInsufficientInfo ''Microsoft is a technology company.'' \<and>
   \<not> (\<exists>p \<in> set hedge_phrases. contains_ignoring_case ''Microsoft is a technology company.'' p)"
proof -
  have a: "hasInsufficientInfo ''Sorry, I am UNABLE to Find anything.''" by code_simp
  have b: "\<not> hasInsufficientInfo ''Microsoft is a technology company.''" by code_simp
  from a quality_filter_classification [of "''Sorry, I am UNABLE to Find anything.''"]
  have c: "\<exists>p \<in> set hedge_phrases. contains_ignoring_case ''Sorry, I am UNABLE to Find anything.'' p"
    by simp
  from b quality_filter_classification [of "''Microsoft is a technology company.''"]
  have d: "\<not> (\<exists>p \<in> set hedge_phrases. contains_ignoring_case ''Microsoft is a technology company.'' p)"
    by simp
  from a b c d show ?thesis by blast
qed

text \<open>
  C7. When no API key is configured and none is in the environment, \<open>execute\<close> throws
  the missing-key error and no request has been sent: the check is the first statement of
  \<open>execute\<close>, before any request is built.
\<close>

theorem missing_credential_fails_first:
  assumes "apiKey cfg = None" and "env = None"
  shows "execute cfg env inp w = ([], Thrown missing_key_error)"
  using assms by (simp add: execute_def resolved_apiKey_def)

theorem missing_credential_fails_first_witness:
  "apiKey \<lparr>apiKey = None, dataMaxPrice = Some 5\<rparr> = None \<and>
   execute \<lparr>apiKey = None, dataMaxPrice = Some 5\<rparr> None example_input example_world =
     ([], Thrown (Error ''VALYU_API_KEY is required. Set it in environment variables or pass it in config.''))"
  using missing_credential_fails_first
          [of "\<lparr>apiKey = None, dataMaxPrice = Some 5\<rparr>" None example_input example_world]
  by (simp add: missing_key_error_def)

text \<open>
  C2. For every selection of sections and every behaviour of the network, when the key
  is present and every call settles, the report is the line
  \<open># Company Research Report: \<close> with the subject and an empty line, then, for each
  section of the fixed order that was selected and whose call was fulfilled with a
  response that is marked successful, has non-empty text and is not flagged by the
  quality check, and for no other section, the block made of \<open>## \<close>, the section's
  title, an empty line, the response's text and an empty line, and then the citations
  block. Rejected calls and unusable answers leave no block.
\<close>

theorem report_block_iff_usable:
  assumes "the_key cfg env \<noteq> []" and "every_call_settles inp w"
  shows "\<exists>out. snd (execute cfg env inp w) = Returned out \<and>
     report out =
       ''# Company Research Report: '' @ company inp @ ''\<newline>\<newline>'' @
       concat (map (\<lambda>s. ''## '' @ sectionTitles s @ ''\<newline>\<newline>'' @
                      (case sectionCall (fetch w) (the_key cfg env) (resolved_dataMaxPrice cfg)
                              (company inp) (Date_now w) s of
                         Fulfilled r \<Rightarrow> contents r | Rejected e \<Rightarrow> []) @
                      ''\<newline>\<newline>'')
                (filter (\<lambda>s. s \<in> set (selectedSections inp) \<and>
                     (case sectionCall (fetch w) (the_key cfg env) (resolved_dataMaxPrice cfg)
                             (company inp) (Date_now w) s of
                        Fulfilled r \<Rightarrow>
                          success r \<and> contents r \<noteq> [] \<and> \<not> hasInsufficientInfo (contents r)
                      | Rejected e \<Rightarrow> False))
                   [summary, leadership, products, news, funding, competitors, filings,
                    financials, insiders])) @
       sources_block (sources out) \<and>
     map sectionTitles
       [summary, leadership, products, news, funding, competitors, filings, financials, insiders] =
       [''Business Overview'', ''Leadership & Key People'', ''Products & Services'',
        ''Recent News & Developments'', ''Funding & Investment'', ''Competitive Landscape'',
        ''SEC Filings Summary'', ''Financial Metrics & Stock Performance'',
        ''Insider Trading Activity'']"
proof -
  have t: "map sectionTitles
       [summary, leadership, products, news, funding, competitors, filings, financials, insiders] =
       [''Business Overview'', ''Leadership & Key People'', ''Products & Services'',
        ''Recent News & Developments'', ''Funding & Investment'', ''Competitive Landscape'',
        ''SEC Filings Summary'', ''Financial Metrics & Stock Performance'',
        ''Insider Trading Activity'']"
    by simp
  have e: "snd (execute cfg env inp w) = Returned
        \<lparr>out_company = company inp,
         report = report_header (company inp) @
                  concat (map (\<lambda>s. outcome_block s (sectionOutcome cfg env inp w s))
                              (rendered_sections cfg env inp w)) @
                  sources_block (concat (map (\<lambda>s. outcome_sources (sectionOutcome cfg env inp w s))
                              (rendered_sections cfg env inp w))),
         out_sections = selectedSections inp,
         sources = concat (map (\<lambda>s. outcome_sources (sectionOutcome cfg env inp w s))
                              (rendered_sections cfg env inp w))\<rparr>"
    using assms by (simp add: execute_eq)
  show ?thesis
    unfolding e rendered_blocks_explicit
    unfolding rendered_sections_explicit
    using t by (simp add: report_header_def)
qed

theorem report_block_iff_usable_witness:
  "the_key example_config None \<noteq> [] \<and> every_call_settles example_input example_world \<and>
   selectedSections example_input = [news, summary, filings, products] \<and>
   (\<exists>out. snd (execute example_config None example_input example_world) = Returned out \<and>
     report out =
       ''# Company Research Report: Acme\<newline>\<newline>'' @
       ''## Business Overview\<newline>\<newline>Acme makes rockets.\<newline>\<newline>'' @
       ''## Products & Services\<newline>\<newline>Rockets and anvils.\<newline>\<newline>'' @
       sources_block (sources out))"
proof -
  have k: "the_key example_config None \<noteq> []" by code_simp
  have a: "every_call_settles example_input example_world" by code_simp
  have sel: "selectedSections example_input = [news, summary, filings, products]" by code_simp
  have c: "company example_input = ''Acme''" by (simp add: example_input_def)
  have b: "concat (map (\<lambda>s. ''## '' @ sectionTitles s @ ''\<newline>\<newline>'' @
                      (case sectionCall (fetch example_world) (the_key example_config None)
                              (resolved_dataMaxPrice example_config)
                              (company example_input) (Date_now example_world) s of
                         Fulfilled r \<Rightarrow> contents r | Rejected e \<Rightarrow> []) @
                      ''\<newline>\<newline>'')
                (filter (\<lambda>s. s \<in> set (selectedSections example_input) \<and>
                     (case sectionCall (fetch example_world) (the_key example_config None)
                             (resolved_dataMaxPrice example_config)
                             (company example_input) (Date_now example_world) s of
                        Fulfilled r \<Rightarrow>
                          success r \<and> contents r \<noteq> [] \<and> \<not> hasInsufficientInfo (contents r)
                      | Rejected e \<Rightarrow> False))
                   [summary, leadership, products, news, funding, competitors, filings,
                    financials, insiders])) =
       ''## Business Overview\<newline>\<newline>Acme makes rockets.\<newline>\<newline>'' @
       ''## Products & Services\<newline>\<newline>Rockets and anvils.\<newline>\<newline>''"
    by code_simp
  from report_block_iff_usable [OF k a] obtain out where
    o: "snd (execute example_config None example_input example_world) = Returned out"
    and r: "report out =
       ''# Company Research Report: '' @ company example_input @ ''\<newline>\<newline>'' @
       concat (map (\<lambda>s. ''## '' @ sectionTitles s @ ''\<newline>\<newline>'' @
                      (case sectionCall (fetch example_world) (the_key example_config None)
                              (resolved_dataMaxPrice example_config)
                              (company example_input) (Date_now example_world) s of
                         Fulfilled r \<Rightarrow> contents r | Rejected e \<Rightarrow> []) @
                      ''\<newline>\<newline>'')
                (filter (\<lambda>s. s \<in> set (selectedSections example_input) \<and>
                     (case sectionCall (fetch example_world) (the_key example_config None)
                             (resolved_dataMaxPrice example_config)
                             (company example_input) (Date_now example_world) s of
                        Fulfilled r \<Rightarrow>
                          success r \<and> contents r \<noteq> [] \<and> \<not> hasInsufficientInfo (contents r)
                      | Rejected e \<Rightarrow> False))
                   [summary, leadership, products, news, funding, competitors, filings,
                    financials, insiders])) @
       sources_block (sources out)"
    by blast
  have r': "report out =
       ''# Company Research Report: Acme\<newline>\<newline>'' @
       ''## Business Overview\<newline>\<newline>Acme makes rockets.\<newline>\<newline>'' @
       ''## Products & Services\<newline>\<newline>Rockets and anvils.\<newline>\<newline>'' @
       sources_block (sources out)"
  proof -
    from r have "report out =
       ''# Company Research Report: '' @ company example_input @ ''\<newline>\<newline>'' @
       (''## Business Overview\<newline>\<newline>Acme makes rockets.\<newline>\<newline>'' @
        ''## Products & Services\<newline>\<newline>Rockets and anvils.\<newline>\<newline>'') @
       sources_block (sources out)"
      unfolding b .
    then show ?thesis unfolding c by simp
  qed
  show ?thesis
    apply (intro conjI exI)
       apply (rule k)
      apply (rule a)
     apply (rule sel)
    apply (rule o)
    apply (rule r')
    done
qed

text \<open>
  C8. When the key is present, every call settles and no requested section is usable,
  \<open>execute\<close> returns (it does not throw) a result whose report is the subject header
  alone: no section block, no citations block, and an empty source list.
\<close>

theorem no_usable_section_gives_header_only:
  assumes "the_key cfg env \<noteq> []" and "every_call_settles inp w"
    and "\<forall>s \<in> set (requested inp). \<not> is_Usable (sectionOutcome cfg env inp w s)"
  shows "snd (execute cfg env inp w) =
     Returned \<lparr>out_company = company inp, report = report_header (company inp),
               out_sections = selectedSections inp, sources = []\<rparr>"
proof -
  have "rendered_sections cfg env inp w = []"
    using assms(3) by (simp add: rendered_sections_def filter_empty_conv)
  then show ?thesis
    using assms(1,2) by (simp add: execute_eq sources_block_def)
qed

theorem no_usable_section_gives_header_only_witness:
  "the_key example_config None \<noteq> [] \<and>
   every_call_settles \<lparr>company = ''Acme'', sections = Some [filings, news, leadership]\<rparr> example_world \<and>
   list_all (\<lambda>s. \<not> is_Usable (sectionOutcome example_config None
            \<lparr>company = ''Acme'', sections = Some [filings, news, leadership]\<rparr> example_world s))
      (requested \<lparr>company = ''Acme'', sections = Some [filings, news, leadership]\<rparr>) \<and>
   snd (execute example_config None
          \<lparr>company = ''Acme'', sections = Some [filings, news, leadership]\<rparr> example_world) =
     Returned \<lparr>out_company = ''Acme'',
               report = ''# Company Research Report: Acme\<newline>\<newline>'',
               out_sections = [filings, news, leadership], sources = []\<rparr>"
proof -
  let ?inp = "\<lparr>company = ''Acme'', sections = Some [filings, news, leadership]\<rparr>"
  have k: "the_key example_config None \<noteq> []" by code_simp
  have a: "every_call_settles ?inp example_world" by code_simp
  have u: "\<forall>s \<in> set (requested ?inp).
             \<not> is_Usable (sectionOutcome example_config None ?inp example_world s)"
    by code_simp
  from no_usable_section_gives_header_only [OF k a u] k a u show ?thesis
    by (simp add: report_header_def selectedSections_def list_all_iff)
qed



text \<open>
  C10. An answer whose text contains "based on the sources found" in any letter case is
  flagged by the quality check whatever else the text says; a section whose call is
  fulfilled with such an answer has the outcome Unusable and is not among the rendered
  sections of the report.
\<close>

theorem sources_found_phrase_drops_section:
  assumes "the_key cfg env \<noteq> []" and "every_call_settles inp w"
    and "sectionCall (fetch w) (the_key cfg env) (resolved_dataMaxPrice cfg)
           (company inp) (Date_now w) s = Fulfilled r"
    and "contains_ignoring_case (contents r) ''based on the sources found''"
  shows "hasInsufficientInfo (contents r) \<and>
         sectionOutcome cfg env inp w s = Unusable \<and>
         s \<notin> set (rendered_sections cfg env inp w) \<and>
         (\<exists>out. snd (execute cfg env inp w) = Returned out \<and>
            report out =
              report_header (company inp) @
              concat (map (\<lambda>t. outcome_block t (sectionOutcome cfg env inp w t))
                          (filter (\<lambda>t. t \<noteq> s) (rendered_sections cfg env inp w))) @
              sources_block (sources out))"
proof -
  have h: "hasInsufficientInfo (contents r)"
    using assms(4) by (simp add: hasInsufficientInfo_def Let_def includes_hedge)
  then have u: "sectionOutcome cfg env inp w s = Unusable"
    using assms(3) by (simp add: sectionOutcome_def)
  then have n: "s \<notin> set (rendered_sections cfg env inp w)"
    by (simp add: rendered_sections_def)
  then have "filter (\<lambda>t. t \<noteq> s) (rendered_sections cfg env inp w) = rendered_sections cfg env inp w"
    by (simp add: filter_id_conv) blast
  with h u n assms(1,2) show ?thesis
    by (simp add: execute_eq)
qed

theorem sources_found_phrase_drops_section_witness:
  "the_key example_config None \<noteq> [] \<and>
   every_call_settles \<lparr>company = ''Acme'', sections = None\<rparr>
      (example_world\<lparr>arrival := [8, 7, 6, 5, 4, 3, 2, 1, 0]\<rparr>) \<and>
   contains_ignoring_case ''Based on the Sources Found, Acme is led by Jane Doe.''
      ''based on the sources found'' \<and>
   hasInsufficientInfo ''Based on the Sources Found, Acme is led by Jane Doe.'' \<and>
   leadership \<notin> set (rendered_sections example_config None \<lparr>company = ''Acme'', sections = None\<rparr>
      (example_world\<lparr>arrival := [8, 7, 6, 5, 4, 3, 2, 1, 0]\<rparr>))"
proof -
  let ?inp = "\<lparr>company = ''Acme'', sections = None\<rparr>"
  let ?w = "example_world\<lparr>arrival := [8, 7, 6, 5, 4, 3, 2, 1, 0]\<rparr>"
  let ?r = "\<lparr>success = True,
          contents = ''Based on the Sources Found, Acme is led by Jane Doe.'',
          search_results = Some [\<lparr>title = Some ''Board'', url = ''https://b'', date = None\<rparr>]\<rparr>"
  have k: "the_key example_config None \<noteq> []" by code_simp
  have a: "every_call_settles ?inp ?w" by code_simp
  have f: "sectionCall (fetch ?w) (the_key example_config None) (resolved_dataMaxPrice example_config)
           (company ?inp) (Date_now ?w) leadership = Fulfilled ?r"
    by code_simp
  have "''Based on the Sources Found, Acme is led by Jane Doe.'' =
          [] @ ''Based on the Sources Found'' @ '', Acme is led by Jane Doe.''"
    by simp
  moreover have "same_ignoring_case ''Based on the Sources Found'' ''based on the sources found''"
    by code_simp
  ultimately have c: "contains_ignoring_case ''Based on the Sources Found, Acme is led by Jane Doe.''
      ''based on the sources found''"
    unfolding contains_ignoring_case_def by blast
  then have c': "contains_ignoring_case (contents ?r) ''based on the sources found''" by simp
  from sources_found_phrase_drops_section [OF k a f c'] k a c show ?thesis by simp
qed

text \<open>
  C1. With a key present and every call settled, the source list of the result is the
  concatenation of the citation lists of the sections that have a block in the report
  (selected, fulfilled, marked successful, with non-empty text that the quality check
  does not flag), taken in the fixed order of the sections. When that list is not empty the report ends with the heading
  \<open>## Sources & Citations\<close> and one numbered line (number, title or \<open>Source\<close>, URL and
  the date when there is one) for each entry of \<open>uniqueSources\<close> of the source list, in
  the order of that list. No two entries of that list have the same URL, and its URLs are
  those of the source list in the order of their first occurrence.
\<close>

theorem citations_unique_in_first_seen_order:
  assumes "the_key cfg env \<noteq> []" and "every_call_settles inp w"
  shows "\<exists>out. snd (execute cfg env inp w) = Returned out \<and>
     sources out =
       concat (map (\<lambda>s. case sectionCall (fetch w) (the_key cfg env) (resolved_dataMaxPrice cfg)
                              (company inp) (Date_now w) s of
                         Fulfilled r \<Rightarrow> (case search_results r of None \<Rightarrow> [] | Some rs \<Rightarrow> rs)
                       | Rejected e \<Rightarrow> [])
                   (filter (\<lambda>s. s \<in> set (selectedSections inp) \<and>
                     (case sectionCall (fetch w) (the_key cfg env) (resolved_dataMaxPrice cfg)
                             (company inp) (Date_now w) s of
                        Fulfilled r \<Rightarrow>
                          success r \<and> contents r \<noteq> [] \<and> \<not> hasInsufficientInfo (contents r)
                      | Rejected e \<Rightarrow> False))
                   [summary, leadership, products, news, funding, competitors, filings,
                    financials, insiders])) \<and>
     report out =
       ''# Company Research Report: '' @ company inp @ ''\<newline>\<newline>'' @
       concat (map (\<lambda>s. ''## '' @ sectionTitles s @ ''\<newline>\<newline>'' @
                      (case sectionCall (fetch w) (the_key cfg env) (resolved_dataMaxPrice cfg)
                              (company inp) (Date_now w) s of
                         Fulfilled r \<Rightarrow> contents r | Rejected e \<Rightarrow> []) @
                      ''\<newline>\<newline>'')
                   (filter (\<lambda>s. s \<in> set (selectedSections inp) \<and>
                     (case sectionCall (fetch w) (the_key cfg env) (resolved_dataMaxPrice cfg)
                             (company inp) (Date_now w) s of
                        Fulfilled r \<Rightarrow>
                          success r \<and> contents r \<noteq> [] \<and> \<not> hasInsufficientInfo (contents r)
                      | Rejected e \<Rightarrow> False))
                   [summary, leadership, products, news, funding, competitors, filings,
                    financials, insiders])) @
       (if sources out = [] then []
        else ''## Sources & Citations\<newline>\<newline>'' @
             concat (map (\<lambda>(index, c).
                       show_nat (index + 1) @ ''. ['' @
                       (case title c of None \<Rightarrow> ''Source''
                        | Some t \<Rightarrow> if t = [] then ''Source'' else t) @
                       '']('' @ url c @ '')'' @
                       (case date c of None \<Rightarrow> []
                        | Some d \<Rightarrow> if d = [] then [] else '' - '' @ d) @
                       ''\<newline>'')
                     (enumerate 0 (uniqueSources (sources out))))) \<and>
     distinct (map url (uniqueSources (sources out))) \<and>
     map url (uniqueSources (sources out)) = map url (merge_seen {} (sources out))"
proof -
  have e: "snd (execute cfg env inp w) = Returned
        \<lparr>out_company = company inp,
         report = report_header (company inp) @
                  concat (map (\<lambda>s. outcome_block s (sectionOutcome cfg env inp w s))
                              (rendered_sections cfg env inp w)) @
                  sources_block (concat (map (\<lambda>s. outcome_sources (sectionOutcome cfg env inp w s))
                              (rendered_sections cfg env inp w))),
         out_sections = selectedSections inp,
         sources = concat (map (\<lambda>s. outcome_sources (sectionOutcome cfg env inp w s))
                              (rendered_sections cfg env inp w))\<rparr>"
    using assms by (simp add: execute_eq)
  show ?thesis
    unfolding e rendered_blocks_explicit rendered_sources_explicit
    unfolding rendered_sections_explicit
    by (simp add: report_header_def sources_block_explicit
          uniqueSources_distinct uniqueSources_urls merge_seen_distinct)
qed

theorem citations_unique_in_first_seen_order_witness:
  "the_key example_config None \<noteq> [] \<and> every_call_settles example_input example_world \<and>
   (\<exists>out. snd (execute example_config None example_input example_world) = Returned out \<and>
      map url (sources out) = [''https://shared'', ''https://a'', ''https://c'', ''https://shared''] \<and>
      map url (uniqueSources (sources out)) = [''https://shared'', ''https://a'', ''https://c''] \<and>
      report out =
        ''# Company Research Report: Acme\<newline>\<newline>'' @
        ''## Business Overview\<newline>\<newline>Acme makes rockets.\<newline>\<newline>'' @
        ''## Products & Services\<newline>\<newline>Rockets and anvils.\<newline>\<newline>'' @
        ''## Sources & Citations\<newline>\<newline>'' @
        ''1. [Acme again](https://shared) - 2025-01-01\<newline>'' @
        ''2. [Source](https://a) - 2024-05-01\<newline>'' @
        ''3. [Catalog](https://c)\<newline>'')"
proof -
  have k: "the_key example_config None \<noteq> []" by code_simp
  have a: "every_call_settles example_input example_world" by code_simp
  have c: "company example_input = ''Acme''" by (simp add: example_input_def)
  have rs: "filter (\<lambda>s. s \<in> set (selectedSections example_input) \<and>
         (case sectionCall (fetch example_world) (the_key example_config None) (resolved_dataMaxPrice example_config)
                 (company example_input) (Date_now example_world) s of
            Fulfilled r \<Rightarrow>
              success r \<and> contents r \<noteq> [] \<and> \<not> hasInsufficientInfo (contents r)
          | Rejected e \<Rightarrow> False))
       [summary, leadership, products, news, funding, competitors, filings,
        financials, insiders] = [summary, products]"
    by code_simp
  have s: "concat (map (\<lambda>s. case sectionCall (fetch example_world) (the_key example_config None)
                              (resolved_dataMaxPrice example_config)
                              (company example_input) (Date_now example_world) s of
                         Fulfilled r \<Rightarrow> (case search_results r of None \<Rightarrow> [] | Some rs \<Rightarrow> rs)
                       | Rejected e \<Rightarrow> [])
                   [summary, products]) =
           [\<lparr>title = Some ''About Acme'', url = ''https://shared'', date = None\<rparr>,
            \<lparr>title = None, url = ''https://a'', date = Some ''2024-05-01''\<rparr>,
            \<lparr>title = Some ''Catalog'', url = ''https://c'', date = None\<rparr>,
            \<lparr>title = Some ''Acme again'', url = ''https://shared'', date = Some ''2025-01-01''\<rparr>]"
    by code_simp
  have b: "concat (map (\<lambda>s. ''## '' @ sectionTitles s @ ''\<newline>\<newline>'' @
                      (case sectionCall (fetch example_world) (the_key example_config None)
                              (resolved_dataMaxPrice example_config)
                              (company example_input) (Date_now example_world) s of
                         Fulfilled r \<Rightarrow> contents r | Rejected e \<Rightarrow> []) @
                      ''\<newline>\<newline>'')
                   [summary, products]) =
       ''## Business Overview\<newline>\<newline>Acme makes rockets.\<newline>\<newline>'' @
       ''## Products & Services\<newline>\<newline>Rockets and anvils.\<newline>\<newline>''"
    by code_simp
  have l: "concat (map (\<lambda>(index, c).
                       show_nat (index + 1) @ ''. ['' @
                       (case title c of None \<Rightarrow> ''Source''
                        | Some t \<Rightarrow> if t = [] then ''Source'' else t) @
                       '']('' @ url c @ '')'' @
                       (case date c of None \<Rightarrow> []
                        | Some d \<Rightarrow> if d = [] then [] else '' - '' @ d) @
                       ''\<newline>'')
                     (enumerate 0 (uniqueSources
           [\<lparr>title = Some ''About Acme'', url = ''https://shared'', date = None\<rparr>,
            \<lparr>title = None, url = ''https://a'', date = Some ''2024-05-01''\<rparr>,
            \<lparr>title = Some ''Catalog'', url = ''https://c'', date = None\<rparr>,
            \<lparr>title = Some ''Acme again'', url = ''https://shared'', date = Some ''2025-01-01''\<rparr>]))) =
        ''1. [Acme again](https://shared) - 2025-01-01\<newline>'' @
        ''2. [Source](https://a) - 2024-05-01\<newline>'' @
        ''3. [Catalog](https://c)\<newline>''"
    by code_simp
  from citations_unique_in_first_seen_order [OF k a] obtain out where
    o: "snd (execute example_config None example_input example_world) = Returned out"
    and src: "sources out =
       concat (map (\<lambda>s. case sectionCall (fetch example_world) (the_key example_config None)
                              (resolved_dataMaxPrice example_config)
                              (company example_input) (Date_now example_world) s of
                         Fulfilled r \<Rightarrow> (case search_results r of None \<Rightarrow> [] | Some rs \<Rightarrow> rs)
                       | Rejected e \<Rightarrow> [])
                   (filter (\<lambda>s. s \<in> set (selectedSections example_input) \<and>
                     (case sectionCall (fetch example_world) (the_key example_config None) (resolved_dataMaxPrice example_config)
                             (company example_input) (Date_now example_world) s of
                        Fulfilled r \<Rightarrow>
                          success r \<and> contents r \<noteq> [] \<and> \<not> hasInsufficientInfo (contents r)
                      | Rejected e \<Rightarrow> False))
                   [summary, leadership, products, news, funding, competitors, filings,
                    financials, insiders]))"
    and rep: "report out =
       ''# Company Research Report: '' @ company example_input @ ''\<newline>\<newline>'' @
       concat (map (\<lambda>s. ''## '' @ sectionTitles s @ ''\<newline>\<newline>'' @
                      (case sectionCall (fetch example_world) (the_key example_config None)
                              (resolved_dataMaxPrice example_config)
                              (company example_input) (Date_now example_world) s of
                         Fulfilled r \<Rightarrow> contents r | Rejected e \<Rightarrow> []) @
                      ''\<newline>\<newline>'')
                   (filter (\<lambda>s. s \<in> set (selectedSections example_input) \<and>
                     (case sectionCall (fetch example_world) (the_key example_config None) (resolved_dataMaxPrice example_config)
                             (company example_input) (Date_now example_world) s of
                        Fulfilled r \<Rightarrow>
                          success r \<and> contents r \<noteq> [] \<and> \<not> hasInsufficientInfo (contents r)
                      | Rejected e \<Rightarrow> False))
                   [summary, leadership, products, news, funding, competitors, filings,
                    financials, insiders])) @
       (if sources out = [] then []
        else ''## Sources & Citations\<newline>\<newline>'' @
             concat (map (\<lambda>(index, c).
                       show_nat (index + 1) @ ''. ['' @
                       (case title c of None \<Rightarrow> ''Source''
                        | Some t \<Rightarrow> if t = [] then ''Source'' else t) @
                       '']('' @ url c @ '')'' @
                       (case date c of None \<Rightarrow> []
                        | Some d \<Rightarrow> if d = [] then [] else '' - '' @ d) @
                       ''\<newline>'')
                     (enumerate 0 (uniqueSources (sources out)))))"
    and u: "map url (uniqueSources (sources out)) = map url (merge_seen {} (sources out))"
    by blast
  have src': "sources out =
           [\<lparr>title = Some ''About Acme'', url = ''https://shared'', date = None\<rparr>,
            \<lparr>title = None, url = ''https://a'', date = Some ''2024-05-01''\<rparr>,
            \<lparr>title = Some ''Catalog'', url = ''https://c'', date = None\<rparr>,
            \<lparr>title = Some ''Acme again'', url = ''https://shared'', date = Some ''2025-01-01''\<rparr>]"
    using src unfolding rs s .
  have m1: "map url (sources out) = [''https://shared'', ''https://a'', ''https://c'', ''https://shared'']"
    unfolding src' by simp
  have m2: "map url (uniqueSources (sources out)) = [''https://shared'', ''https://a'', ''https://c'']"
    unfolding u unfolding src' by simp
  have ne: "sources out \<noteq> []" unfolding src' by simp
  from rep have "report out =
       ''# Company Research Report: '' @ company example_input @ ''\<newline>\<newline>'' @
       (''## Business Overview\<newline>\<newline>Acme makes rockets.\<newline>\<newline>'' @
        ''## Products & Services\<newline>\<newline>Rockets and anvils.\<newline>\<newline>'') @
       (if sources out = [] then []
        else ''## Sources & Citations\<newline>\<newline>'' @
             concat (map (\<lambda>(index, c).
                       show_nat (index + 1) @ ''. ['' @
                       (case title c of None \<Rightarrow> ''Source''
                        | Some t \<Rightarrow> if t = [] then ''Source'' else t) @
                       '']('' @ url c @ '')'' @
                       (case date c of None \<Rightarrow> []
                        | Some d \<Rightarrow> if d = [] then [] else '' - '' @ d) @
                       ''\<newline>'')
                     (enumerate 0 (uniqueSources (sources out)))))"
    unfolding rs b .
  then have "report out =
       ''# Company Research Report: '' @ company example_input @ ''\<newline>\<newline>'' @
       (''## Business Overview\<newline>\<newline>Acme makes rockets.\<newline>\<newline>'' @
        ''## Products & Services\<newline>\<newline>Rockets and anvils.\<newline>\<newline>'') @
       (if False then []
        else ''## Sources & Citations\<newline>\<newline>'' @
        (''1. [Acme again](https://shared) - 2025-01-01\<newline>'' @
        ''2. [Source](https://a) - 2024-05-01\<newline>'' @
        ''3. [Catalog](https://c)\<newline>''))"
    unfolding src' l by simp
  then have m3: "report out =
        ''# Company Research Report: Acme\<newline>\<newline>'' @
        ''## Business Overview\<newline>\<newline>Acme makes rockets.\<newline>\<newline>'' @
        ''## Products & Services\<newline>\<newline>Rockets and anvils.\<newline>\<newline>'' @
        ''## Sources & Citations\<newline>\<newline>'' @
        ''1. [Acme again](https://shared) - 2025-01-01\<newline>'' @
        ''2. [Source](https://a) - 2024-05-01\<newline>'' @
        ''3. [Catalog](https://c)\<newline>''"
    unfolding c by simp
  show ?thesis
    apply (intro conjI exI)
         apply (rule k)
        apply (rule a)
       apply (rule o)
      apply (rule m1)
     apply (rule m2)
    apply (rule m3)
    done
qed

text \<open>
  C6 as the specification states it fails: the deduplicator does not keep the first
  citation of a key; two citations with one URL and different titles leave the second.
\<close>

theorem dedup_keeps_first_counterexample:
  "uniqueSources
     [\<lparr>title = Some ''First'', url = ''https://shared'', date = None\<rparr>,
      \<lparr>title = Some ''Second'', url = ''https://shared'', date = Some ''2024-01-01''\<rparr>] =
     [\<lparr>title = Some ''Second'', url = ''https://shared'', date = Some ''2024-01-01''\<rparr>] \<and>
   merge_seen {}
     [\<lparr>title = Some ''First'', url = ''https://shared'', date = None\<rparr>,
      \<lparr>title = Some ''Second'', url = ''https://shared'', date = Some ''2024-01-01''\<rparr>] =
     [\<lparr>title = Some ''First'', url = ''https://shared'', date = None\<rparr>] \<and>
   uniqueSources
     [\<lparr>title = Some ''First'', url = ''https://shared'', date = None\<rparr>,
      \<lparr>title = Some ''Second'', url = ''https://shared'', date = Some ''2024-01-01''\<rparr>] \<noteq>
   merge_seen {}
     [\<lparr>title = Some ''First'', url = ''https://shared'', date = None\<rparr>,
      \<lparr>title = Some ''Second'', url = ''https://shared'', date = Some ''2024-01-01''\<rparr>]"
  by (simp add: uniqueSources_def new_Map_def)

text \<open>
  C6, amended. For every citation list the deduplicator returns one entry for each URL,
  in the order in which the URLs first occur; the entry standing for a URL is the last
  citation of the list with that URL, so title and date come from the last occurrence.
\<close>

theorem dedup_keeps_last_at_first_position:
  "uniqueSources srcs =
     map (\<lambda>c. last (filter (\<lambda>d. url d = url c) srcs)) (merge_seen {} srcs)"
proof -
  have "map (\<lambda>c. last_with srcs (url c) c) (merge_seen {} srcs) =
        map (\<lambda>c. last (filter (\<lambda>d. url d = url c) srcs)) (merge_seen {} srcs)"
  proof (rule map_cong [OF refl])
    fix c assume "c \<in> set (merge_seen {} srcs)"
    then have "c \<in> set srcs" using merge_seen_mem by blast
    then have "filter (\<lambda>d. url d = url c) srcs \<noteq> []" by (auto simp: filter_empty_conv)
    then show "last_with srcs (url c) c = last (filter (\<lambda>d. url d = url c) srcs)"
      by (simp add: last_with_def)
  qed
  then show ?thesis by (simp add: uniqueSources_last_with)
qed

theorem dedup_keeps_last_at_first_position_witness:
  "uniqueSources
     [\<lparr>title = Some ''First'', url = ''https://shared'', date = None\<rparr>,
      \<lparr>title = Some ''Other'', url = ''https://other'', date = None\<rparr>,
      \<lparr>title = Some ''Second'', url = ''https://shared'', date = Some ''2024-01-01''\<rparr>] =
     [\<lparr>title = Some ''Second'', url = ''https://shared'', date = Some ''2024-01-01''\<rparr>,
      \<lparr>title = Some ''Other'', url = ''https://other'', date = None\<rparr>]"
  using dedup_keeps_last_at_first_position
     [of "[\<lparr>title = Some ''First'', url = ''https://shared'', date = None\<rparr>,
      \<lparr>title = Some ''Other'', url = ''https://other'', date = None\<rparr>,
      \<lparr>title = Some ''Second'', url = ''https://shared'', date = Some ''2024-01-01''\<rparr>]"]
  by simp

text \<open>
  C4. The result of \<open>execute\<close>, and with it the source list and the citation list
  rendered in the report, does not depend on the order in which the calls settle: two runs
  that differ only in the arrival order, every call settling in both, return the same.
\<close>

theorem arrival_order_is_irrelevant:
  assumes "every_call_settles inp w" and "every_call_settles inp (w\<lparr>arrival := order\<rparr>)"
  shows "execute cfg env inp (w\<lparr>arrival := order\<rparr>) = execute cfg env inp w"
proof (cases "the_key cfg env = []")
  case True
  then show ?thesis by (simp add: execute_key)
next
  case False
  have o: "sectionOutcome cfg env inp (w\<lparr>arrival := order\<rparr>) = sectionOutcome cfg env inp w"
    by (rule ext) (simp add: sectionOutcome_def)
  have r: "rendered_sections cfg env inp (w\<lparr>arrival := order\<rparr>) = rendered_sections cfg env inp w"
    by (simp add: rendered_sections_def o)
  show ?thesis
    unfolding execute_eq [OF False] o r using assms by simp
qed

theorem arrival_order_is_irrelevant_witness:
  "every_call_settles example_input example_world \<and>
   every_call_settles example_input (example_world\<lparr>arrival := [3, 3, 1, 0, 2]\<rparr>) \<and>
   arrival example_world = [2, 0, 3, 1] \<and>
   execute example_config None example_input (example_world\<lparr>arrival := [3, 3, 1, 0, 2]\<rparr>) =
   execute example_config None example_input example_world"
proof -
  have a: "every_call_settles example_input example_world" by code_simp
  have b: "every_call_settles example_input (example_world\<lparr>arrival := [3, 3, 1, 0, 2]\<rparr>)"
    by code_simp
  have c: "arrival example_world = [2, 0, 3, 1]" by (simp add: example_world_def)
  from arrival_order_is_irrelevant [OF a b] a b c show ?thesis by (intro conjI)
qed

text \<open>
  C3. Let the call of section \<open>s\<close> be rejected in the run \<open>w\<close>, and let \<open>w0\<close> be any run
  with the same clock in which the calls of all other sections get the same answers.
  Then \<open>s\<close> has the outcome Failed in \<open>w\<close>, every other section has the outcome it has in
  \<open>w0\<close>, the rendered sections of \<open>w\<close> are those of \<open>w0\<close> without \<open>s\<close>, and \<open>execute\<close> does
  not throw: it stays pending as long as some call has not settled, and once every call
  has settled it returns the report made of the blocks the other sections have in \<open>w0\<close>.
\<close>

theorem failed_call_stays_local:
  assumes key: "the_key cfg env \<noteq> []"
    and rej: "sectionCall (fetch w) (the_key cfg env) (resolved_dataMaxPrice cfg)
                (company inp) (Date_now w) s = Rejected e"
    and same: "\<forall>t. t \<noteq> s \<longrightarrow>
                fetch w0 (sectionRequest (the_key cfg env) (resolved_dataMaxPrice cfg)
                            (company inp) (Date_now w) t) =
                fetch w (sectionRequest (the_key cfg env) (resolved_dataMaxPrice cfg)
                            (company inp) (Date_now w) t)"
    and clock: "Date_now w0 = Date_now w"
  shows "sectionOutcome cfg env inp w s = Failed e \<and>
     (\<forall>t. t \<noteq> s \<longrightarrow> sectionOutcome cfg env inp w t = sectionOutcome cfg env inp w0 t) \<and>
     rendered_sections cfg env inp w = filter (\<lambda>t. t \<noteq> s) (rendered_sections cfg env inp w0) \<and>
     snd (execute cfg env inp w) =
       (if every_call_settles inp w
        then Returned
          \<lparr>out_company = company inp,
           report = report_header (company inp) @
                    concat (map (\<lambda>t. outcome_block t (sectionOutcome cfg env inp w0 t))
                                (filter (\<lambda>t. t \<noteq> s) (rendered_sections cfg env inp w0))) @
                    sources_block
                      (concat (map (\<lambda>t. outcome_sources (sectionOutcome cfg env inp w0 t))
                                (filter (\<lambda>t. t \<noteq> s) (rendered_sections cfg env inp w0)))),
           out_sections = selectedSections inp,
           sources = concat (map (\<lambda>t. outcome_sources (sectionOutcome cfg env inp w0 t))
                                (filter (\<lambda>t. t \<noteq> s) (rendered_sections cfg env inp w0)))\<rparr>
        else Pending)"
proof -
  have os: "sectionOutcome cfg env inp w s = Failed e"
    using rej by (simp add: sectionOutcome_def)
  have ot: "sectionOutcome cfg env inp w t = sectionOutcome cfg env inp w0 t" if "t \<noteq> s" for t
    using same [rule_format, OF that] clock
    by (simp add: sectionOutcome_def sectionCall_def callAnswerAPI_def sectionRequest_def)
  have rs: "rendered_sections cfg env inp w = filter (\<lambda>t. t \<noteq> s) (rendered_sections cfg env inp w0)"
    unfolding rendered_sections_def filter_filter
  proof (rule filter_cong [OF refl])
    fix t
    show "is_Usable (sectionOutcome cfg env inp w t) =
          (is_Usable (sectionOutcome cfg env inp w0 t) \<and> t \<noteq> s)"
      using os ot [of t] by (cases "t = s") simp_all
  qed
  have bl: "map (\<lambda>t. outcome_block t (sectionOutcome cfg env inp w t))
               (filter (\<lambda>t. t \<noteq> s) (rendered_sections cfg env inp w0)) =
            map (\<lambda>t. outcome_block t (sectionOutcome cfg env inp w0 t))
               (filter (\<lambda>t. t \<noteq> s) (rendered_sections cfg env inp w0))"
    by (rule map_cong [OF refl]) (simp add: ot)
  have sr: "map (\<lambda>t. outcome_sources (sectionOutcome cfg env inp w t))
               (filter (\<lambda>t. t \<noteq> s) (rendered_sections cfg env inp w0)) =
            map (\<lambda>t. outcome_sources (sectionOutcome cfg env inp w0 t))
               (filter (\<lambda>t. t \<noteq> s) (rendered_sections cfg env inp w0))"
    by (rule map_cong [OF refl]) (simp add: ot)
  have ex: "snd (execute cfg env inp w) =
       (if every_call_settles inp w
        then Returned
          \<lparr>out_company = company inp,
           report = report_header (company inp) @
                    concat (map (\<lambda>t. outcome_block t (sectionOutcome cfg env inp w0 t))
                                (filter (\<lambda>t. t \<noteq> s) (rendered_sections cfg env inp w0))) @
                    sources_block
                      (concat (map (\<lambda>t. outcome_sources (sectionOutcome cfg env inp w0 t))
                                (filter (\<lambda>t. t \<noteq> s) (rendered_sections cfg env inp w0)))),
           out_sections = selectedSections inp,
           sources = concat (map (\<lambda>t. outcome_sources (sectionOutcome cfg env inp w0 t))
                                (filter (\<lambda>t. t \<noteq> s) (rendered_sections cfg env inp w0)))\<rparr>
        else Pending)"
    unfolding execute_eq [OF key] rs bl sr by simp
  from os ot rs ex show ?thesis by blast
qed

theorem failed_call_stays_local_witness:
  "the_key example_config None \<noteq> [] \<and>
   sectionCall (fetch example_failing_world) (the_key example_config None)
     (resolved_dataMaxPrice example_config) (company example_input)
     (Date_now example_failing_world) products = Rejected (Error ''socket hang up'') \<and>
   fetch example_world (sectionRequest (the_key example_config None)
         (resolved_dataMaxPrice example_config) (company example_input)
         (Date_now example_failing_world) summary) =
      fetch example_failing_world (sectionRequest (the_key example_config None)
         (resolved_dataMaxPrice example_config) (company example_input)
         (Date_now example_failing_world) summary) \<and>
   Date_now example_world = Date_now example_failing_world \<and>
   every_call_settles example_input example_failing_world \<and>
   rendered_sections example_config None example_input example_world = [summary, products] \<and>
   rendered_sections example_config None example_input example_failing_world = [summary] \<and>
   sectionOutcome example_config None example_input example_failing_world products =
     Failed (Error ''socket hang up'') \<and>
   snd (execute example_config None example_input example_failing_world) \<noteq> Pending \<and>
   (\<forall>err. snd (execute example_config None example_input example_failing_world) \<noteq> Thrown err)"
proof -
  have k: "the_key example_config None \<noteq> []" by code_simp
  have p: "the_key example_config None = ''secret''"
          "resolved_dataMaxPrice example_config = 100"
          "company example_input = ''Acme''"
          "Date_now example_failing_world = 1793664000123"
    by code_simp+
  have rej: "sectionCall (fetch example_failing_world) (the_key example_config None)
     (resolved_dataMaxPrice example_config) (company example_input)
     (Date_now example_failing_world) products = Rejected (Error ''socket hang up'')"
    unfolding p
    by (simp add: sectionCall_def callAnswerAPI_def example_failing_world_def
          sectionRequest_def)
  have same: "\<forall>t. t \<noteq> products \<longrightarrow>
      fetch example_world (sectionRequest (the_key example_config None)
         (resolved_dataMaxPrice example_config) (company example_input)
         (Date_now example_failing_world) t) =
      fetch example_failing_world (sectionRequest (the_key example_config None)
         (resolved_dataMaxPrice example_config) (company example_input)
         (Date_now example_failing_world) t)"
    unfolding p
    using sectionRequest_inj [of "''secret''" 100 "''Acme''" 1793664000123 _ products]
    by (auto simp: example_failing_world_def)
  have clock: "Date_now example_world = Date_now example_failing_world"
    by (simp add: example_failing_world_def)
  have a: "every_call_settles example_input example_failing_world" by code_simp
  have r0: "rendered_sections example_config None example_input example_world = [summary, products]"
    by code_simp
  note t = failed_call_stays_local [OF k rej same clock]
  have r: "rendered_sections example_config None example_input example_failing_world = [summary]"
    using t unfolding r0 by simp
  have o: "sectionOutcome example_config None example_input example_failing_world products =
     Failed (Error ''socket hang up'')"
    using t by (rule conjunct1)
  have e: "snd (execute example_config None example_input example_failing_world) \<noteq> Pending"
    using t a by simp
  have e': "\<forall>err. snd (execute example_config None example_input example_failing_world) \<noteq> Thrown err"
    using t a by simp
  have same1: "fetch example_world (sectionRequest (the_key example_config None)
         (resolved_dataMaxPrice example_config) (company example_input)
         (Date_now example_failing_world) summary) =
      fetch example_failing_world (sectionRequest (the_key example_config None)
         (resolved_dataMaxPrice example_config) (company example_input)
         (Date_now example_failing_world) summary)"
    using same by simp
  show ?thesis
    by (intro conjI k rej same1 clock a r0 r o e e')
qed

end
